theory Spec2Isabelle
  imports Main "HOL-Library.Char_ord" "HOL-Library.List_Lexorder"
begin

section \<open>Python values and task dictionaries\<close>

text \<open>
  A task is a Python \<open>dict\<close> with string keys, as \<open>json.load\<close> builds it and as
  \<open>add_task\<close> writes it. A dict keeps its keys in insertion order, and \<open>json.dump\<close>
  writes them in that order, so a task is an association list. The values of a task's
  fields are the scalars of JSON: \<open>null\<close>, the booleans, the integers (unbounded in
  Python) and strings. A Python \<open>str\<close> is modelled by its UTF-8 encoding, one \<open>char\<close> per
  byte. A \<open>str\<close> can hold a lone surrogate (\<open>json.load\<close> reads one from an escape such as
  \<open>\ud800\<close>, and the command line gives them for bytes that are not UTF-8); it is modelled
  by the three bytes \<open>ED\<close>, \<open>A0\<close> to \<open>BF\<close>, \<open>80\<close> to \<open>BF\<close> of the generalised encoding, which never
  occur in the UTF-8 of other text. Floating-point numbers and nested containers are not
  part of the model.
\<close>

datatype pyval = PNone | PBool bool | PInt int | PStr string

type_synonym task = "(string \<times> pyval) list"

text \<open>
  The exceptions the program meets, with the message Python gives them where the code
  prints it. \<open>JSONDecodeError\<close> is what \<open>json.load\<close> raises on text that is not JSON; a
  text that is not UTF-8 or a number too long to convert makes it raise another
  \<open>ValueError\<close>, and nesting deeper than the interpreter's stack a \<open>RecursionError\<close>.
  \<open>UnicodeEncodeError\<close> is what writing a lone surrogate to a UTF-8 file raises.
\<close>

datatype error =
    KeyError string
  | TypeError
  | ValueError string
  | JSONDecodeError string
  | RecursionError
  | UnicodeEncodeError

text \<open>\<open>d[k]\<close>: the value stored under \<open>k\<close>, or \<open>KeyError\<close>.\<close>

definition getitem :: "task \<Rightarrow> string \<Rightarrow> error + pyval" where
  "getitem d k = (case map_of d k of None \<Rightarrow> Inl (KeyError k) | Some v \<Rightarrow> Inr v)"

text \<open>\<open>d[k] = v\<close>: an existing key keeps its position, a new key goes last.\<close>

fun setitem :: "task \<Rightarrow> string \<Rightarrow> pyval \<Rightarrow> task" where
  "setitem [] k v = [(k, v)]"
| "setitem ((k', v') # d) k v = (if k' = k then (k, v) # d else (k', v') # setitem d k v)"

text \<open>
  Python's numbers: \<open>bool\<close> is a subclass of \<open>int\<close>, \<open>True\<close> counts as 1 and \<open>False\<close>
  as 0 in comparisons and arithmetic.
\<close>

fun as_int :: "pyval \<Rightarrow> int option" where
  "as_int (PInt n) = Some n"
| "as_int (PBool b) = Some (if b then 1 else 0)"
| "as_int PNone = None"
| "as_int (PStr s) = None"

text \<open>\<open>a == b\<close> never raises: numbers compare by value, strings and \<open>None\<close> with their like.\<close>

definition py_eq :: "pyval \<Rightarrow> pyval \<Rightarrow> bool" where
  "py_eq a b =
     (case (as_int a, as_int b) of
        (Some x, Some y) \<Rightarrow> x = y
      | (None, None) \<Rightarrow> a = b
      | _ \<Rightarrow> False)"

text \<open>
  \<open>a > b\<close>: numbers by value, strings by code points (the order of their UTF-8 bytes);
  every other pair raises \<open>TypeError\<close>.
\<close>

fun py_gt :: "pyval \<Rightarrow> pyval \<Rightarrow> error + bool" where
  "py_gt (PStr s) (PStr t) = Inr (t < s)"
| "py_gt a b =
     (case (as_int a, as_int b) of
        (Some x, Some y) \<Rightarrow> Inr (y < x)
      | _ \<Rightarrow> Inl TypeError)"

text \<open>\<open>a + 1\<close>: an integer for a number, \<open>TypeError\<close> for a string or \<open>None\<close>.\<close>

definition py_add1 :: "pyval \<Rightarrow> error + int" where
  "py_add1 a = (case as_int a of Some x \<Rightarrow> Inr (x + 1) | None \<Rightarrow> Inl TypeError)"

text \<open>The truth value of \<open>if v\<close>.\<close>

fun truthy :: "pyval \<Rightarrow> bool" where
  "truthy PNone = False"
| "truthy (PBool b) = b"
| "truthy (PInt n) = (n \<noteq> 0)"
| "truthy (PStr s) = (s \<noteq> [])"

text \<open>
  Equality of two dicts: the same number of keys, and every key of the first is a key
  of the second with an equal value.
\<close>

definition dict_eq :: "task \<Rightarrow> task \<Rightarrow> bool" where
  "dict_eq a b =
     (length a = length b \<and>
      list_all (\<lambda>(k, v). case map_of b k of None \<Rightarrow> False | Some w \<Rightarrow> py_eq v w) a)"

text \<open>
  \<open>xs.remove(x)\<close> deletes the first element that is \<open>x\<close> itself or equal to it, and
  raises \<open>ValueError\<close> when there is none.
\<close>

fun list_remove :: "task \<Rightarrow> task list \<Rightarrow> error + task list" where
  "list_remove x [] = Inl (ValueError ''list.remove(x): x not in list'')"
| "list_remove x (y # ys) =
     (if y = x \<or> dict_eq y x then Inr ys
      else (case list_remove x ys of Inl e \<Rightarrow> Inl e | Inr zs \<Rightarrow> Inr (y # zs)))"

section \<open>Decimal numerals\<close>

definition digit_char :: "nat \<Rightarrow> char" where
  "digit_char d =
     (if d = 0 then CHR ''0'' else if d = 1 then CHR ''1'' else if d = 2 then CHR ''2''
      else if d = 3 then CHR ''3'' else if d = 4 then CHR ''4'' else if d = 5 then CHR ''5''
      else if d = 6 then CHR ''6'' else if d = 7 then CHR ''7'' else if d = 8 then CHR ''8''
      else CHR ''9'')"

fun show_nat :: "nat \<Rightarrow> string" where
  "show_nat n = (if n < 10 then [digit_char n] else show_nat (n div 10) @ [digit_char (n mod 10)])"

definition show_int :: "int \<Rightarrow> string" where
  "show_int i = (if i < 0 then CHR ''-'' # show_nat (nat (- i)) else show_nat (nat i))"

section \<open>Time stamps\<close>

text \<open>
  A naive \<open>datetime\<close>, as \<open>datetime.now()\<close> returns it. \<open>isoformat()\<close> writes
  \<open>YYYY-MM-DDTHH:MM:SS\<close>, followed by \<open>.ffffff\<close> when the microseconds are not zero.
\<close>

record datetime =
  year :: nat
  month :: nat
  day :: nat
  hour :: nat
  minute :: nat
  second :: nat
  microsecond :: nat

text \<open>A number in at least \<open>w\<close> decimal digits, padded with zeros on the left.\<close>

definition zero_pad :: "nat \<Rightarrow> nat \<Rightarrow> string" where
  "zero_pad w n = replicate (w - length (show_nat n)) CHR ''0'' @ show_nat n"

definition isoformat :: "datetime \<Rightarrow> string" where
  "isoformat dt =
     zero_pad 4 (year dt) @ ''-'' @ zero_pad 2 (month dt) @ ''-'' @ zero_pad 2 (day dt) @ ''T'' @
     zero_pad 2 (hour dt) @ '':'' @ zero_pad 2 (minute dt) @ '':'' @ zero_pad 2 (second dt) @
     (if microsecond dt = 0 then [] else ''.'' @ zero_pad 6 (microsecond dt))"

section \<open>The task repository\<close>

text \<open>
  \<open>get_next_id\<close>: 1 for an empty list, else \<open>max(task['id'] for task in tasks) + 1\<close>.
  \<open>max\<close> reads the generator one task at a time: it keeps the first id, and replaces
  its maximum by each later id that is greater. \<open>max_ids\<close> is that loop.
\<close>

fun max_ids :: "pyval \<Rightarrow> task list \<Rightarrow> error + pyval" where
  "max_ids m [] = Inr m"
| "max_ids m (task # tasks) =
     (case getitem task ''id'' of
        Inl e \<Rightarrow> Inl e
      | Inr v \<Rightarrow>
          (case py_gt v m of
             Inl e \<Rightarrow> Inl e
           | Inr b \<Rightarrow> max_ids (if b then v else m) tasks))"

fun get_next_id :: "task list \<Rightarrow> error + int" where
  "get_next_id [] = Inr 1"
| "get_next_id (task # tasks) =
     (case getitem task ''id'' of
        Inl e \<Rightarrow> Inl e
      | Inr v \<Rightarrow> (case max_ids v tasks of Inl e \<Rightarrow> Inl e | Inr m \<Rightarrow> py_add1 m))"

text \<open>
  \<open>add_task\<close> appends the new dict to the caller's list and returns it; the model
  returns the new task and the list after the append. The clock is an argument.
\<close>

definition add_task :: "datetime \<Rightarrow> string \<Rightarrow> task list \<Rightarrow> error + (task \<times> task list)" where
  "add_task now task_text tasks =
     (case get_next_id tasks of
        Inl e \<Rightarrow> Inl e
      | Inr n \<Rightarrow>
          (let new_task =
                 [(''id'', PInt n),
                  (''text'', PStr task_text),
                  (''completed'', PBool False),
                  (''created_at'', PStr (isoformat now))]
           in Inr (new_task, tasks @ [new_task])))"

text \<open>
  \<open>find_task_by_id\<close> returns a reference to the first dict of the list whose id equals
  \<open>task_id\<close>, or \<open>None\<close>. The callers mutate the list through that reference, so the model
  returns the position of the dict in the list; the dict itself is \<open>tasks ! i\<close>.
\<close>

fun find_task_by_id :: "int \<Rightarrow> task list \<Rightarrow> error + nat option" where
  "find_task_by_id task_id [] = Inr None"
| "find_task_by_id task_id (task # tasks) =
     (case getitem task ''id'' of
        Inl e \<Rightarrow> Inl e
      | Inr v \<Rightarrow>
          if py_eq v (PInt task_id) then Inr (Some 0)
          else (case find_task_by_id task_id tasks of
                  Inl e \<Rightarrow> Inl e
                | Inr None \<Rightarrow> Inr None
                | Inr (Some i) \<Rightarrow> Inr (Some (Suc i))))"

text \<open>
  \<open>complete_task\<close> and \<open>delete_task\<close> return a bool and change the caller's list in
  place; the model returns the bool with the list as it is afterwards.
\<close>

definition complete_task :: "int \<Rightarrow> task list \<Rightarrow> error + (bool \<times> task list)" where
  "complete_task task_id tasks =
     (case find_task_by_id task_id tasks of
        Inl e \<Rightarrow> Inl e
      | Inr None \<Rightarrow> Inr (False, tasks)
      | Inr (Some i) \<Rightarrow> Inr (True, tasks[i := setitem (tasks ! i) ''completed'' (PBool True)]))"

definition delete_task :: "int \<Rightarrow> task list \<Rightarrow> error + (bool \<times> task list)" where
  "delete_task task_id tasks =
     (case find_task_by_id task_id tasks of
        Inl e \<Rightarrow> Inl e
      | Inr None \<Rightarrow> Inr (False, tasks)
      | Inr (Some i) \<Rightarrow>
          (case list_remove (tasks ! i) tasks of
             Inl e \<Rightarrow> Inl e
           | Inr tasks' \<Rightarrow> Inr (True, tasks')))"

section \<open>The backing file and the two output streams\<close>

text \<open>
  What a command can see and change: the content of \<open>tasks.json\<close> (\<open>None\<close> while the file
  does not exist) and the lines printed so far on the standard output and on the error
  stream. Failures of the file system itself (permissions, a full disk) are not modelled.
\<close>

record world =
  tasks_file :: "string option"
  stdout :: "string list"
  stderr :: "string list"

definition print :: "string \<Rightarrow> world \<Rightarrow> world" where
  "print line w = w\<lparr>stdout := stdout w @ [line]\<rparr>"

definition print_err :: "string \<Rightarrow> world \<Rightarrow> world" where
  "print_err line w = w\<lparr>stderr := stderr w @ [line]\<rparr>"

text \<open>
  The error stream replaces what it cannot encode, so \<open>print\<close> to it never raises. The
  standard output raises \<open>UnicodeEncodeError\<close> for a line it cannot encode, and prints
  nothing of it; which lines those are depends on the terminal (a UTF-8 stream refuses a
  lone surrogate) and is an argument of the model, \<open>encodable\<close>. The messages of the
  program itself are ASCII, which every stream encodes; \<open>print_encoded\<close> is \<open>print\<close> for a
  line that holds text of a task.
\<close>

definition print_encoded :: "(string \<Rightarrow> bool) \<Rightarrow> string \<Rightarrow> world \<Rightarrow> error option \<times> world" where
  "print_encoded encodable line w =
     (if encodable line then (None, print line w) else (Some UnicodeEncodeError, w))"

text \<open>
  \<open>open(file_path, 'w')\<close> creates the file or truncates it to nothing; what is written to
  the handle afterwards follows what the file holds by then.
\<close>

definition open_w :: "world \<Rightarrow> world" where
  "open_w w = w\<lparr>tasks_file := Some []\<rparr>"

definition fwrite :: "string \<Rightarrow> world \<Rightarrow> world" where
  "fwrite data w =
     w\<lparr>tasks_file := Some (case tasks_file w of None \<Rightarrow> data | Some old \<Rightarrow> old @ data)\<rparr>"

section \<open>Writing JSON\<close>

text \<open>
  \<open>json.dump(tasks, f, indent=2, ensure_ascii=False)\<close>. With \<open>ensure_ascii=False\<close> the
  encoder escapes the quote, the backslash and the control characters below \<open>0x20\<close>, and
  copies every other character.
\<close>

definition hex_char :: "nat \<Rightarrow> char" where
  "hex_char d =
     (if d < 10 then digit_char d
      else if d = 10 then CHR ''a'' else if d = 11 then CHR ''b'' else if d = 12 then CHR ''c''
      else if d = 13 then CHR ''d'' else if d = 14 then CHR ''e'' else CHR ''f'')"

definition escape_char :: "char \<Rightarrow> string" where
  "escape_char c =
     (if c = CHR 0x22 then [CHR 0x5C, CHR 0x22]
      else if c = CHR 0x5C then [CHR 0x5C, CHR 0x5C]
      else if c = CHR 0x0A then [CHR 0x5C, CHR ''n'']
      else if c = CHR 0x0D then [CHR 0x5C, CHR ''r'']
      else if c = CHR 0x09 then [CHR 0x5C, CHR ''t'']
      else if c = CHR 0x08 then [CHR 0x5C, CHR ''b'']
      else if c = CHR 0x0C then [CHR 0x5C, CHR ''f'']
      else if (of_char c :: nat) < 0x20
        then CHR 0x5C # ''u00'' @ [hex_char (of_char c div 16), hex_char (of_char c mod 16)]
      else [c])"

definition encode_str :: "string \<Rightarrow> string" where
  "encode_str s = CHR 0x22 # concat (map escape_char s) @ [CHR 0x22]"

text \<open>A line break followed by the indentation of a nesting level, two spaces each.\<close>

definition newline_indent :: "nat \<Rightarrow> string" where
  "newline_indent level = CHR 0x0A # replicate (2 * level) CHR '' ''"

text \<open>
  \<open>str\<close> of an integer raises \<open>ValueError\<close> when the number has more than 4300 decimal
  digits, the interpreter's default limit. The integers of a file and of the command line
  have been through \<open>int\<close>, which has the same limit, so they are within it; an id that
  \<open>get_next_id\<close> computes can have one digit more, and \<open>json.dump\<close> is the first to convert
  it.
\<close>

definition max_str_digits :: nat where
  "max_str_digits = 4300"

definition int_str :: "int \<Rightarrow> error + string" where
  "int_str n =
     (if max_str_digits < length (show_nat (nat \<bar>n\<bar>))
      then Inl (ValueError ''Exceeds the limit (4300 digits) for integer string conversion; use sys.set_int_max_str_digits() to increase the limit'')
      else Inr (show_int n))"

text \<open>
  \<open>json.dump\<close> writes the document to the file in pieces, as the encoder's generator
  yields them: a piece that cannot be built ends the dump with the pieces before it
  written. The pieces of a value, of a dict at a nesting level, and of the list.
\<close>

fun encode_value :: "pyval \<Rightarrow> error + string" where
  "encode_value PNone = Inr ''null''"
| "encode_value (PBool b) = Inr (if b then ''true'' else ''false'')"
| "encode_value (PInt n) = int_str n"
| "encode_value (PStr s) = Inr (encode_str s)"

fun iterencode_items :: "string \<Rightarrow> bool \<Rightarrow> task \<Rightarrow> (error + string) list" where
  "iterencode_items item_separator first [] = []"
| "iterencode_items item_separator first ((k, v) # d) =
     (if first then [] else [Inr item_separator]) @
     [Inr (encode_str k), Inr '': '', encode_value v] @
     iterencode_items item_separator False d"

definition iterencode_dict :: "nat \<Rightarrow> task \<Rightarrow> (error + string) list" where
  "iterencode_dict level d =
     (if d = [] then [Inr ''{}'']
      else [Inr ''{'', Inr (newline_indent (level + 1))] @
           iterencode_items ('','' @ newline_indent (level + 1)) True d @
           [Inr (newline_indent level), Inr ''}''])"

fun iterencode_elems :: "string \<Rightarrow> task list \<Rightarrow> (error + string) list" where
  "iterencode_elems buf [] = []"
| "iterencode_elems buf (task # tasks) =
     Inr buf # iterencode_dict 1 task @ iterencode_elems ('','' @ newline_indent 1) tasks"

definition iterencode_list :: "task list \<Rightarrow> (error + string) list" where
  "iterencode_list tasks =
     (if tasks = [] then [Inr ''[]'']
      else iterencode_elems (''['' @ newline_indent 1) tasks @ [Inr (newline_indent 0), Inr '']''])"

text \<open>
  The file is opened with \<open>encoding='utf-8'\<close>: writing a piece that holds a lone
  surrogate raises \<open>UnicodeEncodeError\<close> and writes nothing of the piece.
\<close>

fun has_surrogate :: "string \<Rightarrow> bool" where
  "has_surrogate (c # d # cs) =
     ((c = CHR 0xED \<and> (0xA0::nat) \<le> of_char d \<and> (of_char d::nat) \<le> 0xBF) \<or> has_surrogate (d # cs))"
| "has_surrogate cs = False"

fun write_chunks :: "(error + string) list \<Rightarrow> world \<Rightarrow> error option \<times> world" where
  "write_chunks [] w = (None, w)"
| "write_chunks (Inl e # chunks) w = (Some e, w)"
| "write_chunks (Inr chunk # chunks) w =
     (if has_surrogate chunk then (Some UnicodeEncodeError, w)
      else write_chunks chunks (fwrite chunk w))"

definition json_dump :: "task list \<Rightarrow> world \<Rightarrow> error option \<times> world" where
  "json_dump tasks w = write_chunks (iterencode_list tasks) w"

section \<open>The storage codec\<close>

text \<open>
  \<open>json.load\<close> belongs to the standard library and is an argument of the model:
  \<open>json_load text\<close> is what \<open>json.load\<close> does on a file holding \<open>text\<close>. It raises, or it
  returns a value, of which \<open>load_tasks\<close> asks whether it is a list.
\<close>

datatype json_value = Array "task list" | NotArray

text \<open>
  The two places where \<open>load_tasks\<close> writes the file run \<open>json.dump([], f)\<close>, which
  writes \<open>[]\<close>. The \<open>except\<close> clause catches \<open>JSONDecodeError\<close> and \<open>ValueError\<close>, the one
  raised for a value that is not a list included, and prints the exception's message;
  any other exception leaves \<open>load_tasks\<close>.
\<close>

definition reinitialize :: "string \<Rightarrow> world \<Rightarrow> (error + task list) \<times> world" where
  "reinitialize msg w =
     (Inr [],
      fwrite ''[]''
        (open_w
          (print_err (''Error: Corrupted tasks file detected ('' @ msg @ ''). Reinitializing...'') w)))"

definition load_tasks ::
  "(string \<Rightarrow> error + json_value) \<Rightarrow> world \<Rightarrow> (error + task list) \<times> world" where
  "load_tasks json_load w =
     (case tasks_file w of
        None \<Rightarrow> (Inr [], fwrite ''[]'' (open_w w))
      | Some content \<Rightarrow>
          (case json_load content of
             Inr (Array tasks) \<Rightarrow> (Inr tasks, w)
           | Inr NotArray \<Rightarrow> reinitialize ''Tasks file must contain a JSON array'' w
           | Inl (JSONDecodeError msg) \<Rightarrow> reinitialize msg w
           | Inl (ValueError msg) \<Rightarrow> reinitialize msg w
           | Inl e \<Rightarrow> (Inl e, w)))"

text \<open>
  \<open>save_tasks\<close> opens the file for writing and dumps the list into it; the \<open>with\<close>
  statement closes the file whether the dump raises or not, and what was written by then
  stays in it. \<open>save_tasks_states\<close> lists the states the file goes through on the way:
  the one after \<open>open\<close>, and the one when the handle is closed.
\<close>

definition save_tasks :: "task list \<Rightarrow> world \<Rightarrow> error option \<times> world" where
  "save_tasks tasks w = json_dump tasks (open_w w)"

definition save_tasks_states :: "task list \<Rightarrow> world \<Rightarrow> world list" where
  "save_tasks_states tasks w = [open_w w, snd (json_dump tasks (open_w w))]"

section \<open>Listing\<close>

text \<open>
  \<open>datetime.fromisoformat\<close> is the library's and an argument of the model: \<open>None\<close> stands
  for its \<open>ValueError\<close>. Given anything but a \<open>str\<close> it raises \<open>TypeError\<close>.
  \<open>strftime("%Y-%m-%d %H:%M")\<close> writes the month, day, hour and minute in two digits. The
  year is the C library's \<open>%Y\<close>, which on Linux is the number without padding: four digits
  from the year 1000 on, fewer before.
\<close>

definition strftime_ymd_hm :: "datetime \<Rightarrow> string" where
  "strftime_ymd_hm dt =
     show_nat (year dt) @ ''-'' @ zero_pad 2 (month dt) @ ''-'' @ zero_pad 2 (day dt) @ '' '' @
     zero_pad 2 (hour dt) @ '':'' @ zero_pad 2 (minute dt)"

text \<open>What an f-string writes for a value.\<close>

fun py_str :: "pyval \<Rightarrow> string" where
  "py_str PNone = ''None''"
| "py_str (PBool b) = (if b then ''True'' else ''False'')"
| "py_str (PInt n) = show_int n"
| "py_str (PStr s) = s"

text \<open>The status mark of a completed task, as the bytes of the source file.\<close>

definition completed_mark :: string where
  "completed_mark = [CHR 0xC3, CHR 0xA2, CHR 0xC5, CHR 0x93, CHR 0xE2, CHR 0x80, CHR 0x9C]"

text \<open>
  The \<open>try\<close> block of \<open>format_task\<close>: \<open>KeyError\<close> and \<open>ValueError\<close> give \<open>Unknown\<close>, a
  \<open>TypeError\<close> is not caught.
\<close>

definition format_timestamp :: "(string \<Rightarrow> datetime option) \<Rightarrow> task \<Rightarrow> error + string" where
  "format_timestamp fromisoformat task =
     (case getitem task ''created_at'' of
        Inl e \<Rightarrow> Inr ''Unknown''
      | Inr (PStr s) \<Rightarrow>
          (case fromisoformat s of
             None \<Rightarrow> Inr ''Unknown''
           | Some created_dt \<Rightarrow> Inr (strftime_ymd_hm created_dt))
      | Inr v \<Rightarrow> Inl TypeError)"

definition format_task :: "(string \<Rightarrow> datetime option) \<Rightarrow> task \<Rightarrow> error + string" where
  "format_task fromisoformat task =
     (case getitem task ''completed'' of
        Inl e \<Rightarrow> Inl e
      | Inr c \<Rightarrow>
     (case getitem task ''id'' of
        Inl e \<Rightarrow> Inl e
      | Inr task_id \<Rightarrow>
     (case getitem task ''text'' of
        Inl e \<Rightarrow> Inl e
      | Inr txt \<Rightarrow>
     (case format_timestamp fromisoformat task of
        Inl e \<Rightarrow> Inl e
      | Inr timestamp \<Rightarrow>
          Inr (''['' @ py_str task_id @ ''] ['' @ (if truthy c then completed_mark else '' '') @
               ''] '' @ py_str txt @ '' ('' @ timestamp @ '')'')))))"

text \<open>
  \<open>list_tasks\<close> prints one line for the empty list, and else the tasks one after the
  other; an exception of \<open>format_task\<close> or of \<open>print\<close> ends the loop after the lines
  printed so far.
\<close>

fun print_tasks ::
  "(string \<Rightarrow> datetime option) \<Rightarrow> (string \<Rightarrow> bool) \<Rightarrow> task list \<Rightarrow> world \<Rightarrow>
   error option \<times> world" where
  "print_tasks fromisoformat encodable [] w = (None, w)"
| "print_tasks fromisoformat encodable (task # tasks) w =
     (case format_task fromisoformat task of
        Inl e \<Rightarrow> (Some e, w)
      | Inr line \<Rightarrow>
          (case print_encoded encodable line w of
             (Some e, w') \<Rightarrow> (Some e, w')
           | (None, w') \<Rightarrow> print_tasks fromisoformat encodable tasks w'))"

definition list_tasks ::
  "(string \<Rightarrow> datetime option) \<Rightarrow> (string \<Rightarrow> bool) \<Rightarrow> task list \<Rightarrow> world \<Rightarrow>
   error option \<times> world" where
  "list_tasks fromisoformat encodable tasks w =
     (if tasks = [] then (None, print ''No tasks found.'' w)
      else print_tasks fromisoformat encodable tasks w)"

section \<open>The command handlers\<close>

text \<open>
  How a handler ends: it returns, it calls \<open>sys.exit\<close>, or an exception leaves it. The
  process then exits with 0, with the code given, or with 1 after the traceback.
\<close>

datatype outcome = Returned | Exited int | Raised error

fun exit_code :: "outcome \<Rightarrow> int" where
  "exit_code Returned = 0"
| "exit_code (Exited n) = n"
| "exit_code (Raised e) = 1"

definition handle_add ::
  "(string \<Rightarrow> error + json_value) \<Rightarrow> datetime \<Rightarrow> (string \<Rightarrow> bool) \<Rightarrow> string \<Rightarrow> world \<Rightarrow>
   outcome \<times> world" where
  "handle_add json_load now encodable txt w =
     (case load_tasks json_load w of
        (Inl e, w1) \<Rightarrow> (Raised e, w1)
      | (Inr tasks, w1) \<Rightarrow>
          (case add_task now txt tasks of
             Inl e \<Rightarrow> (Raised e, w1)
           | Inr (new_task, tasks') \<Rightarrow>
               (case save_tasks tasks' w1 of
                  (Some e, w2) \<Rightarrow> (Raised e, w2)
                | (None, w2) \<Rightarrow>
               (case getitem new_task ''id'' of
                  Inl e \<Rightarrow> (Raised e, w2)
                | Inr task_id \<Rightarrow>
               (case getitem new_task ''text'' of
                  Inl e \<Rightarrow> (Raised e, w2)
                | Inr new_text \<Rightarrow>
                    (case print_encoded encodable
                            (''Added task #'' @ py_str task_id @ '': '' @ py_str new_text) w2 of
                       (Some e, w3) \<Rightarrow> (Raised e, w3)
                     | (None, w3) \<Rightarrow> (Returned, w3)))))))"


definition handle_complete ::
  "(string \<Rightarrow> error + json_value) \<Rightarrow> int \<Rightarrow> world \<Rightarrow> outcome \<times> world" where
  "handle_complete json_load task_id w =
     (case load_tasks json_load w of
        (Inl e, w1) \<Rightarrow> (Raised e, w1)
      | (Inr tasks, w1) \<Rightarrow>
          (case complete_task task_id tasks of
             Inl e \<Rightarrow> (Raised e, w1)
           | Inr (True, tasks') \<Rightarrow>
               (case save_tasks tasks' w1 of
                  (Some e, w2) \<Rightarrow> (Raised e, w2)
                | (None, w2) \<Rightarrow>
                    (Returned, print (''Marked task #'' @ show_int task_id @ '' as complete'') w2))
           | Inr (False, tasks') \<Rightarrow>
               (Exited 1, print_err (''Error: Task #'' @ show_int task_id @ '' not found'') w1)))"

definition handle_delete ::
  "(string \<Rightarrow> error + json_value) \<Rightarrow> int \<Rightarrow> world \<Rightarrow> outcome \<times> world" where
  "handle_delete json_load task_id w =
     (case load_tasks json_load w of
        (Inl e, w1) \<Rightarrow> (Raised e, w1)
      | (Inr tasks, w1) \<Rightarrow>
          (case delete_task task_id tasks of
             Inl e \<Rightarrow> (Raised e, w1)
           | Inr (True, tasks') \<Rightarrow>
               (case save_tasks tasks' w1 of
                  (Some e, w2) \<Rightarrow> (Raised e, w2)
                | (None, w2) \<Rightarrow> (Returned, print (''Deleted task #'' @ show_int task_id) w2))
           | Inr (False, tasks') \<Rightarrow>
               (Exited 1, print_err (''Error: Task #'' @ show_int task_id @ '' not found'') w1)))"

section \<open>Notions used to state the properties\<close>

text \<open>
  The id of a task, when the task has an integer under \<open>''id''\<close>. A collection whose
  tasks all have ids is described by the list of those ids:
  \<open>map id_of tasks = map Some ids\<close>.
\<close>

definition id_of :: "task \<Rightarrow> int option" where
  "id_of t = (case map_of t ''id'' of Some (PInt n) \<Rightarrow> Some n | _ \<Rightarrow> None)"

text \<open>A task with the four fields of \<open>add_task\<close>, and a clock reading, for the examples.\<close>

definition mk_task :: "int \<Rightarrow> string \<Rightarrow> bool \<Rightarrow> string \<Rightarrow> task" where
  "mk_task n txt c ts =
     [(''id'', PInt n), (''text'', PStr txt), (''completed'', PBool c), (''created_at'', PStr ts)]"

definition sample_now :: datetime where
  "sample_now =
     \<lparr>year = 2024, month = 3, day = 9, hour = 7, minute = 5, second = 0, microsecond = 0\<rparr>"





text \<open>
  The document as one text: what the file holds after a dump in which nothing raises. A
  JSON array, \<open>[]\<close> when empty, with the tasks in the order of the collection, each from
  a line of its own indented by two spaces; in a task the fields in the order of the
  dict, one per line indented by four, as \<open>"key": value\<close>. \<open>serialisable\<close> holds of a
  collection whose keys and strings hold no lone surrogate and whose integers have at
  most 4300 digits.
\<close>

fun encode_scalar :: "pyval \<Rightarrow> string" where
  "encode_scalar PNone = ''null''"
| "encode_scalar (PBool b) = (if b then ''true'' else ''false'')"
| "encode_scalar (PInt n) = show_int n"
| "encode_scalar (PStr s) = encode_str s"

fun join :: "string \<Rightarrow> string list \<Rightarrow> string" where
  "join sep [] = []"
| "join sep [x] = x"
| "join sep (x # y # ys) = x @ sep @ join sep (y # ys)"

definition encode_item :: "string \<times> pyval \<Rightarrow> string" where
  "encode_item kv = encode_str (fst kv) @ '': '' @ encode_scalar (snd kv)"

definition encode_dict :: "nat \<Rightarrow> task \<Rightarrow> string" where
  "encode_dict level d =
     (if d = [] then ''{}''
      else ''{'' @ newline_indent (level + 1) @
           join ('','' @ newline_indent (level + 1)) (map encode_item d) @
           newline_indent level @ ''}'')"

definition json_dump_indent :: "task list \<Rightarrow> string" where
  "json_dump_indent tasks =
     (if tasks = [] then ''[]''
      else ''['' @ newline_indent 1 @
           join ('','' @ newline_indent 1) (map (encode_dict 1) tasks) @
           newline_indent 0 @ '']'')"

fun serialisable_value :: "pyval \<Rightarrow> bool" where
  "serialisable_value (PStr s) = (\<not> has_surrogate s)"
| "serialisable_value (PInt n) = (length (show_nat (nat \<bar>n\<bar>)) \<le> 4300)"
| "serialisable_value v = True"

definition serialisable :: "task list \<Rightarrow> bool" where
  "serialisable tasks =
     list_all (list_all (\<lambda>kv. \<not> has_surrogate (fst kv) \<and> serialisable_value (snd kv))) tasks"

text \<open>
  A character the JSON encoder copies as it is: not a control character, not the quote,
  not the backslash. \<open>quoted s\<close> is \<open>s\<close> between two quotes.
\<close>

definition plain_char :: "char \<Rightarrow> bool" where
  "plain_char c = ((32::nat) \<le> of_char c \<and> c \<noteq> CHR 0x22 \<and> c \<noteq> CHR 0x5C)"

definition quoted :: "string \<Rightarrow> string" where
  "quoted s = CHR 0x22 # s @ [CHR 0x22]"

text \<open>
  Sample data for the examples: three tasks, the second with a time stamp that does not
  parse and the third without one; the document \<open>save_tasks\<close> writes for them; and the
  two library functions on the texts the examples read.
\<close>

definition sample_tasks :: "task list" where
  "sample_tasks =
     [mk_task 1 ''Buy milk'' False ''2024-03-09T07:05:00'',
      mk_task 2 ''Call'' True ''yesterday'',
      [(''id'', PInt 3), (''text'', PStr ''Old''), (''completed'', PBool False)]]"

definition sample_document :: string where
  "sample_document = json_dump_indent sample_tasks"

definition sample_json_load :: "string \<Rightarrow> error + json_value" where
  "sample_json_load s =
     (if s = sample_document then Inr (Array sample_tasks)
      else if s = ''[]'' then Inr (Array [])
      else if s = ''{}'' then Inr NotArray
      else Inl (JSONDecodeError ''Expecting value: line 1 column 1 (char 0)''))"







definition surrogate_text :: string where
  "surrogate_text = [CHR ''x'', CHR 0xED, CHR 0xA0, CHR 0x80]"





text \<open>An integer of 4301 digits, one more than \<open>str\<close> converts.\<close>

definition too_long_id :: int where
  "too_long_id = 10 ^ 4300"

section \<open>Decimal digits\<close>

declare show_nat.simps [simp del]

lemma show_nat_small: "n < 10 \<Longrightarrow> show_nat n = [digit_char n]"
  by (subst show_nat.simps) simp

lemma show_nat_step: "10 \<le> n \<Longrightarrow> show_nat n = show_nat (n div 10) @ [digit_char (n mod 10)]"
  by (subst show_nat.simps) simp

lemma show_nat_2: "10 \<le> n \<Longrightarrow> n < 100 \<Longrightarrow> show_nat n = [digit_char (n div 10), digit_char (n mod 10)]"
  by (simp add: show_nat_step show_nat_small)

lemma show_nat_3:
  assumes "100 \<le> n" "n < 1000"
  shows "show_nat n = [digit_char (n div 100), digit_char (n div 10 mod 10), digit_char (n mod 10)]"
proof -
  have "10 \<le> n div 10" "n div 10 < 100" using assms by simp_all
  then have "show_nat (n div 10) = [digit_char (n div 10 div 10), digit_char (n div 10 mod 10)]"
    by (rule show_nat_2)
  moreover have "n div 10 div 10 = n div 100" by (simp add: div_mult2_eq)
  ultimately show ?thesis using assms by (simp add: show_nat_step)
qed

lemma show_nat_4:
  assumes "1000 \<le> n" "n < 10000"
  shows "show_nat n = [digit_char (n div 1000), digit_char (n div 100 mod 10),
                       digit_char (n div 10 mod 10), digit_char (n mod 10)]"
proof -
  have "100 \<le> n div 10" "n div 10 < 1000" using assms by simp_all
  then have "show_nat (n div 10) =
      [digit_char (n div 10 div 100), digit_char (n div 10 div 10 mod 10), digit_char (n div 10 mod 10)]"
    by (rule show_nat_3)
  moreover have "n div 10 div 100 = n div 1000" "n div 10 div 10 = n div 100"
    by (simp_all add: div_mult2_eq)
  ultimately show ?thesis using assms by (simp add: show_nat_step)
qed


lemma zero_pad_4:
  "1000 \<le> n \<Longrightarrow> n < 10000 \<Longrightarrow>
   zero_pad 4 n = [digit_char (n div 1000), digit_char (n div 100 mod 10),
                   digit_char (n div 10 mod 10), digit_char (n mod 10)]"
  by (simp add: zero_pad_def show_nat_4)


section \<open>Dictionaries and the search by id\<close>

lemma getitem_id_of: "id_of t = Some n \<Longrightarrow> getitem t ''id'' = Inr (PInt n)"
  by (auto simp: id_of_def getitem_def split: option.splits pyval.splits)

lemma py_eq_int [simp]: "py_eq (PInt a) (PInt b) = (a = b)"
  by (simp add: py_eq_def)

lemma map_of_setitem: "map_of (setitem d k v) = (map_of d)(k \<mapsto> v)"
  by (induction d) (auto simp: fun_eq_iff)

lemma setitem_idem: "setitem (setitem d k v) k v = setitem d k v"
  by (induction d) auto

lemma keys_setitem: "k \<in> fst ` set d \<Longrightarrow> map fst (setitem d k v) = map fst d"
  by (induction d) force+

lemma length_setitem: "k \<in> fst ` set d \<Longrightarrow> length (setitem d k v) = length d"
  by (induction d) force+

lemma id_of_setitem: "k \<noteq> ''id'' \<Longrightarrow> id_of (setitem d k v) = id_of d"
  by (simp add: id_of_def map_of_setitem)

lemma find_present:
  "map id_of tasks = map Some ids \<Longrightarrow> i \<in> set ids \<Longrightarrow>
   find_task_by_id i tasks = Inr (Some (length (takeWhile (\<lambda>j. j \<noteq> i) ids)))"
proof (induction tasks arbitrary: ids)
  case Nil
  then show ?case by simp
next
  case (Cons t ts)
  then obtain j js where ids: "ids = j # js" and t: "id_of t = Some j" and ts: "map id_of ts = map Some js"
    by (cases ids) auto
  show ?case
  proof (cases "j = i")
    case True
    then show ?thesis by (simp add: ids getitem_id_of [OF t])
  next
    case False
    with Cons.prems ids have "i \<in> set js" by simp
    from Cons.IH [OF ts this] False show ?thesis
      by (simp add: ids getitem_id_of [OF t])
  qed
qed

lemma find_absent:
  "map id_of tasks = map Some ids \<Longrightarrow> i \<notin> set ids \<Longrightarrow> find_task_by_id i tasks = Inr None"
proof (induction tasks arbitrary: ids)
  case Nil
  then show ?case by simp
next
  case (Cons t ts)
  then obtain j js where ids: "ids = j # js" and t: "id_of t = Some j" and ts: "map id_of ts = map Some js"
    by (cases ids) auto
  from Cons.prems ids have "j \<noteq> i" "i \<notin> set js" by auto
  with Cons.IH [OF ts] show ?case
    by (simp add: ids getitem_id_of [OF t])
qed

lemma first_index_less: "i \<in> set ids \<Longrightarrow> length (takeWhile (\<lambda>j. j \<noteq> i) ids) < length ids"
  by (induction ids) auto

lemma first_index_nth: "i \<in> set ids \<Longrightarrow> ids ! length (takeWhile (\<lambda>j. j \<noteq> i) ids) = i"
  by (induction ids) auto

lemma first_index_before:
  "n < length (takeWhile (\<lambda>j. j \<noteq> i) ids) \<Longrightarrow> ids ! n \<noteq> i"
  by (metis (mono_tags, lifting) nth_mem set_takeWhileD takeWhile_nth)

lemma dict_eq_id:
  assumes "dict_eq y x" "id_of y = Some j" "id_of x = Some i"
  shows "j = i"
proof -
  from assms(2) have "map_of y ''id'' = Some (PInt j)"
    by (auto simp: id_of_def split: option.splits pyval.splits)
  then have "(''id'', PInt j) \<in> set y" by (rule map_of_SomeD)
  with assms(1) have "case map_of x ''id'' of None \<Rightarrow> False | Some w \<Rightarrow> py_eq (PInt j) w"
    by (auto simp: dict_eq_def list_all_iff)
  moreover from assms(3) have "map_of x ''id'' = Some (PInt i)"
    by (auto simp: id_of_def split: option.splits pyval.splits)
  ultimately show ?thesis by simp
qed

lemma list_remove_first:
  "k < length tasks \<Longrightarrow> tasks ! k = x \<Longrightarrow>
   (\<forall>n<k. tasks ! n \<noteq> x \<and> \<not> dict_eq (tasks ! n) x) \<Longrightarrow>
   list_remove x tasks = Inr (take k tasks @ drop (Suc k) tasks)"
proof (induction tasks arbitrary: k)
  case Nil
  then show ?case by simp
next
  case (Cons t ts)
  show ?case
  proof (cases k)
    case 0
    with Cons.prems show ?thesis by simp
  next
    case (Suc k')
    with Cons.prems have "k' < length ts" "ts ! k' = x" by simp_all
    moreover from Cons.prems Suc have "\<forall>n<k'. ts ! n \<noteq> x \<and> \<not> dict_eq (ts ! n) x" by auto
    ultimately have "list_remove x ts = Inr (take k' ts @ drop (Suc k') ts)" by (rule Cons.IH)
    moreover from Cons.prems Suc have "t \<noteq> x \<and> \<not> dict_eq t x" by auto
    ultimately show ?thesis using Suc by simp
  qed
qed

lemma delete_present:
  assumes ids: "map id_of tasks = map Some ids" and i: "i \<in> set ids"
  defines "k \<equiv> length (takeWhile (\<lambda>j. j \<noteq> i) ids)"
  shows "delete_task i tasks = Inr (True, take k tasks @ drop (Suc k) tasks)"
proof -
  have len: "length tasks = length ids" using ids by (metis length_map)
  have nth: "\<And>n. n < length ids \<Longrightarrow> id_of (tasks ! n) = Some (ids ! n)"
    using ids len by (metis nth_map)
  have k: "k < length tasks" using i len by (simp add: k_def first_index_less)
  have idk: "id_of (tasks ! k) = Some i"
    using nth [of k] k len i by (simp add: k_def first_index_nth)
  have before: "\<forall>n<k. tasks ! n \<noteq> tasks ! k \<and> \<not> dict_eq (tasks ! n) (tasks ! k)"
  proof (intro allI impI)
    fix n assume n: "n < k"
    then have "ids ! n \<noteq> i" unfolding k_def by (rule first_index_before)
    moreover have idn: "id_of (tasks ! n) = Some (ids ! n)" using n k len by (simp add: nth)
    ultimately show "tasks ! n \<noteq> tasks ! k \<and> \<not> dict_eq (tasks ! n) (tasks ! k)"
      using idk dict_eq_id [of "tasks ! n" "tasks ! k" "ids ! n" i] by auto
  qed
  have "list_remove (tasks ! k) tasks = Inr (take k tasks @ drop (Suc k) tasks)"
    using k refl before by (rule list_remove_first)
  then show ?thesis
    using find_present [OF ids i] by (simp add: delete_task_def k_def)
qed

lemma complete_present:
  assumes ids: "map id_of tasks = map Some ids" and i: "i \<in> set ids"
  defines "k \<equiv> length (takeWhile (\<lambda>j. j \<noteq> i) ids)"
  shows "complete_task i tasks = Inr (True, tasks[k := setitem (tasks ! k) ''completed'' (PBool True)])"
  using find_present [OF ids i] by (simp add: complete_task_def k_def)

lemma ids_after_complete:
  assumes "map id_of tasks = map Some ids"
  shows "map id_of (tasks[k := setitem (tasks ! k) ''completed'' v]) = map Some ids"
proof -
  have "map id_of (tasks[k := setitem (tasks ! k) ''completed'' v]) = (map id_of tasks)[k := id_of (tasks ! k)]"
    by (simp add: map_update id_of_setitem)
  also have "\<dots> = map id_of tasks"
    by (cases "k < length tasks") (simp_all add: list_update_same_conv list_update_beyond)
  finally show ?thesis using assms by simp
qed

lemma remove1_take_drop:
  "i \<in> set ids \<Longrightarrow> remove1 i ids = take (length (takeWhile (\<lambda>j. j \<noteq> i) ids)) ids @ drop (Suc (length (takeWhile (\<lambda>j. j \<noteq> i) ids))) ids"
  by (induction ids) auto

section \<open>The next id\<close>

lemma max_ids_int:
  "map id_of tasks = map Some ids \<Longrightarrow> max_ids (PInt m) tasks = Inr (PInt (Max (set (m # ids))))"
proof (induction tasks arbitrary: m ids)
  case Nil
  then show ?case by simp
next
  case (Cons t ts)
  then obtain i is' where ids: "ids = i # is'" and t: "id_of t = Some i" and ts: "map id_of ts = map Some is'"
    by (cases ids) auto
  have g: "getitem t ''id'' = Inr (PInt i)" using t by (rule getitem_id_of)
  have "max_ids (PInt m) (t # ts) = max_ids (PInt (max m i)) ts"
    by (simp add: g max_def)
  also have "\<dots> = Inr (PInt (Max (set (max m i # is'))))"
    using Cons.IH [OF ts] .
  also have "Max (set (max m i # is')) = Max (set (m # ids))"
    by (simp only: Max.set_eq_fold ids fold_simps comp_apply max.commute)
  finally show ?case .
qed

lemma get_next_id_max:
  assumes "map id_of tasks = map Some ids" "tasks \<noteq> []"
  shows "get_next_id tasks = Inr (Max (set ids) + 1)"
proof -
  from assms obtain t ts i is' where tasks: "tasks = t # ts" and ids: "ids = i # is'"
    and t: "id_of t = Some i" and ts: "map id_of ts = map Some is'"
    by (cases tasks; cases ids) auto
  show ?thesis
    by (simp add: tasks ids getitem_id_of [OF t] max_ids_int [OF ts] py_add1_def)
qed

section \<open>Claims about the repository\<close>

text \<open>
  C4. \<open>get_next_id\<close> returns 1 for the empty collection; for a collection that is not
  empty, whose tasks have the ids \<open>ids\<close>, it returns the largest of them plus 1.
\<close>

theorem get_next_id_spec:
  "get_next_id [] = Inr 1 \<and>
   (map id_of tasks = map Some ids \<and> tasks \<noteq> [] \<longrightarrow> get_next_id tasks = Inr (Max (set ids) + 1))"
  by (simp add: get_next_id_max)

theorem get_next_id_spec_witness:
  "get_next_id [] = Inr 1 \<and>
   get_next_id [mk_task 3 ''a'' False ''t'', mk_task 7 ''b'' True ''t'', mk_task 5 ''c'' False ''t''] = Inr 8"
  using get_next_id_spec [of "[mk_task 3 ''a'' False ''t'', mk_task 7 ''b'' True ''t'', mk_task 5 ''c'' False ''t'']" "[3, 7, 5]"]
  by (simp add: id_of_def mk_task_def)

text \<open>
  C5. For every collection whose tasks have ids and every text, the empty one included,
  \<open>add_task\<close> does not raise: it builds the task with the id \<open>get_next_id\<close> gives, the
  text, \<open>completed = False\<close> and the clock's time in ISO form as \<open>created_at\<close>, returns
  it, and the collection afterwards is the old one with that task appended.
\<close>

theorem add_task_spec:
  assumes "map id_of tasks = map Some ids"
  shows "\<exists>n. get_next_id tasks = Inr n \<and>
             add_task now txt tasks =
               Inr (mk_task n txt False (isoformat now), tasks @ [mk_task n txt False (isoformat now)])"
proof (cases "tasks = []")
  case True
  then show ?thesis by (simp add: add_task_def mk_task_def Let_def)
next
  case False
  with assms have "get_next_id tasks = Inr (Max (set ids) + 1)" by (rule get_next_id_max)
  then show ?thesis by (simp add: add_task_def mk_task_def Let_def)
qed

theorem add_task_spec_witness:
  "add_task sample_now '''' [mk_task 1 ''a'' False ''t'', mk_task 4 ''b'' True ''t''] =
     Inr (mk_task 5 '''' False (isoformat sample_now),
          [mk_task 1 ''a'' False ''t'', mk_task 4 ''b'' True ''t'', mk_task 5 '''' False (isoformat sample_now)])"
  using add_task_spec [of "[mk_task 1 ''a'' False ''t'', mk_task 4 ''b'' True ''t'']" "[1, 4]" sample_now "''''"]
  by (simp add: id_of_def mk_task_def getitem_def py_add1_def)

text \<open>
  C6. For an id that occurs in the collection, \<open>complete_task\<close> succeeds, and applied
  again to the collection it leaves, it succeeds again and leaves the same collection.
\<close>

theorem complete_task_idempotent:
  assumes "map id_of tasks = map Some ids" "i \<in> set ids"
  shows "\<exists>tasks'. complete_task i tasks = Inr (True, tasks') \<and>
                  complete_task i tasks' = Inr (True, tasks')"
proof -
  let ?k = "length (takeWhile (\<lambda>j. j \<noteq> i) ids)"
  let ?tasks' = "tasks[?k := setitem (tasks ! ?k) ''completed'' (PBool True)]"
  have len: "length tasks = length ids" using assms(1) by (metis length_map)
  have k: "?k < length tasks" using assms(2) len by (simp add: first_index_less)
  have once: "complete_task i tasks = Inr (True, ?tasks')"
    using assms by (rule complete_present)
  have ids': "map id_of ?tasks' = map Some ids"
    using assms(1) by (rule ids_after_complete)
  have "complete_task i ?tasks' =
          Inr (True, ?tasks'[?k := setitem (?tasks' ! ?k) ''completed'' (PBool True)])"
    using ids' assms(2) by (rule complete_present)
  also have "?tasks'[?k := setitem (?tasks' ! ?k) ''completed'' (PBool True)] = ?tasks'"
    using k by (simp add: setitem_idem)
  finally show ?thesis using once by blast
qed

theorem complete_task_idempotent_witness:
  "complete_task 2 [mk_task 1 ''a'' False ''t'', mk_task 2 ''b'' False ''t''] =
     Inr (True, [mk_task 1 ''a'' False ''t'', mk_task 2 ''b'' True ''t'']) \<and>
   complete_task 2 [mk_task 1 ''a'' False ''t'', mk_task 2 ''b'' True ''t''] =
     Inr (True, [mk_task 1 ''a'' False ''t'', mk_task 2 ''b'' True ''t''])"
  using complete_task_idempotent [of "[mk_task 1 ''a'' False ''t'', mk_task 2 ''b'' False ''t'']" "[1, 2]" 2]
  by (simp add: id_of_def mk_task_def complete_task_def getitem_def)

text \<open>
  C10. A successful \<open>complete_task\<close> changes one task, at a position \<open>k\<close> where the id
  is the one asked for: the collection keeps its length, every task at another position
  is the same, and the task at \<open>k\<close> has the same value under every key but
  \<open>''completed''\<close>, which is now \<open>True\<close>; its keys keep their order.
\<close>

theorem complete_task_frame:
  assumes "map id_of tasks = map Some ids" "i \<in> set ids"
  shows "\<exists>k tasks'. complete_task i tasks = Inr (True, tasks') \<and>
           k < length tasks \<and> id_of (tasks ! k) = Some i \<and>
           length tasks' = length tasks \<and>
           (\<forall>n<length tasks. n \<noteq> k \<longrightarrow> tasks' ! n = tasks ! n) \<and>
           (\<forall>key. key \<noteq> ''completed'' \<longrightarrow> map_of (tasks' ! k) key = map_of (tasks ! k) key) \<and>
           map_of (tasks' ! k) ''completed'' = Some (PBool True) \<and>
           (''completed'' \<in> fst ` set (tasks ! k) \<longrightarrow> map fst (tasks' ! k) = map fst (tasks ! k))"
proof -
  let ?k = "length (takeWhile (\<lambda>j. j \<noteq> i) ids)"
  let ?tasks' = "tasks[?k := setitem (tasks ! ?k) ''completed'' (PBool True)]"
  have len: "length tasks = length ids" using assms(1) by (metis length_map)
  have k: "?k < length tasks" using assms(2) len by (simp add: first_index_less)
  have "id_of (tasks ! ?k) = map id_of tasks ! ?k" using k by simp
  also have "\<dots> = Some i" using assms k len by (simp add: first_index_nth)
  finally have idk: "id_of (tasks ! ?k) = Some i" .
  have once: "complete_task i tasks = Inr (True, ?tasks')"
    using assms by (rule complete_present)
  have at_k: "?tasks' ! ?k = setitem (tasks ! ?k) ''completed'' (PBool True)"
    using k by simp
  have "length ?tasks' = length tasks" by simp
  moreover have "\<forall>n<length tasks. n \<noteq> ?k \<longrightarrow> ?tasks' ! n = tasks ! n" by simp
  moreover have "\<forall>key. key \<noteq> ''completed'' \<longrightarrow> map_of (?tasks' ! ?k) key = map_of (tasks ! ?k) key"
    by (simp add: at_k map_of_setitem)
  moreover have "map_of (?tasks' ! ?k) ''completed'' = Some (PBool True)"
    by (simp add: at_k map_of_setitem)
  moreover have "''completed'' \<in> fst ` set (tasks ! ?k) \<longrightarrow> map fst (?tasks' ! ?k) = map fst (tasks ! ?k)"
    by (simp add: at_k keys_setitem)
  ultimately show ?thesis using once k idk by blast
qed

theorem complete_task_frame_witness:
  "complete_task 2 [mk_task 1 ''a'' False ''t'', mk_task 2 ''b'' False ''u'', mk_task 3 ''c'' False ''v''] =
     Inr (True, [mk_task 1 ''a'' False ''t'', mk_task 2 ''b'' True ''u'', mk_task 3 ''c'' False ''v''])"
  using complete_task_frame [of "[mk_task 1 ''a'' False ''t'', mk_task 2 ''b'' False ''u'', mk_task 3 ''c'' False ''v'']" "[1, 2, 3]" 2]
  by (simp add: id_of_def mk_task_def complete_task_def getitem_def)

lemma take_drop_filter:
  "distinct ids \<Longrightarrow> i \<in> set ids \<Longrightarrow> map f xs = map Some ids \<Longrightarrow>
   take (length (takeWhile (\<lambda>j. j \<noteq> i) ids)) xs @ drop (Suc (length (takeWhile (\<lambda>j. j \<noteq> i) ids))) xs =
   filter (\<lambda>t. f t \<noteq> Some i) xs"
proof (induction xs arbitrary: ids)
  case Nil
  then show ?case by simp
next
  case (Cons x xs)
  then obtain j js where ids: "ids = j # js" and x: "f x = Some j" and xs: "map f xs = map Some js"
    by (cases ids) auto
  show ?case
  proof (cases "j = i")
    case True
    with Cons.prems ids have "i \<notin> set js" by simp
    then have "\<forall>t\<in>set xs. f t \<noteq> Some i"
      using xs by (metis (no_types, lifting) image_eqI image_set inj_Some inj_image_mem_iff list.set_map)
    then have "filter (\<lambda>t. f t \<noteq> Some i) xs = xs" by simp
    with True x show ?thesis by (simp add: ids)
  next
    case False
    with Cons.prems ids have "distinct js" "i \<in> set js" by simp_all
    from Cons.IH [OF this xs] False x show ?thesis by (simp add: ids)
  qed
qed

text \<open>
  C7. For an id that occurs in the collection, \<open>delete_task\<close> returns \<open>True\<close> and removes
  one task, the first with that id: the tasks before and after it stay, in their order.
  When the ids are distinct, what remains are exactly the tasks with another id. For an
  id that does not occur it returns \<open>False\<close> and the collection is the same.
\<close>

theorem delete_task_spec:
  assumes "map id_of tasks = map Some ids"
  shows "(i \<in> set ids \<longrightarrow>
            (\<exists>k<length tasks. id_of (tasks ! k) = Some i \<and> (\<forall>n<k. id_of (tasks ! n) \<noteq> Some i) \<and>
               delete_task i tasks = Inr (True, take k tasks @ drop (Suc k) tasks))) \<and>
         (i \<in> set ids \<and> distinct ids \<longrightarrow>
            delete_task i tasks = Inr (True, filter (\<lambda>t. id_of t \<noteq> Some i) tasks)) \<and>
         (i \<notin> set ids \<longrightarrow> delete_task i tasks = Inr (False, tasks))"
proof (intro conjI impI)
  assume i: "i \<in> set ids"
  let ?k = "length (takeWhile (\<lambda>j. j \<noteq> i) ids)"
  have len: "length tasks = length ids" using assms by (metis length_map)
  have nth: "\<And>n. n < length ids \<Longrightarrow> id_of (tasks ! n) = Some (ids ! n)"
    using assms len by (metis nth_map)
  have k: "?k < length tasks" using i len by (simp add: first_index_less)
  have "id_of (tasks ! ?k) = Some i"
    using nth [of ?k] k len i by (simp add: first_index_nth)
  moreover have "\<forall>n<?k. id_of (tasks ! n) \<noteq> Some i"
  proof (intro allI impI)
    fix n assume n: "n < ?k"
    then have "ids ! n \<noteq> i" by (rule first_index_before)
    with nth [of n] n k len show "id_of (tasks ! n) \<noteq> Some i" by simp
  qed
  moreover have "delete_task i tasks = Inr (True, take ?k tasks @ drop (Suc ?k) tasks)"
    using assms i by (rule delete_present)
  ultimately show "\<exists>k<length tasks. id_of (tasks ! k) = Some i \<and> (\<forall>n<k. id_of (tasks ! n) \<noteq> Some i) \<and>
               delete_task i tasks = Inr (True, take k tasks @ drop (Suc k) tasks)"
    using k by blast
next
  assume "i \<in> set ids \<and> distinct ids"
  then have i: "i \<in> set ids" and d: "distinct ids" by simp_all
  show "delete_task i tasks = Inr (True, filter (\<lambda>t. id_of t \<noteq> Some i) tasks)"
    using delete_present [OF assms i] take_drop_filter [OF d i assms] by simp
next
  assume "i \<notin> set ids"
  with assms have "find_task_by_id i tasks = Inr None" by (rule find_absent)
  then show "delete_task i tasks = Inr (False, tasks)" by (simp add: delete_task_def)
qed

theorem delete_task_spec_witness:
  "delete_task 2 [mk_task 1 ''a'' False ''t'', mk_task 2 ''b'' False ''u'', mk_task 3 ''c'' True ''v''] =
     Inr (True, [mk_task 1 ''a'' False ''t'', mk_task 3 ''c'' True ''v'']) \<and>
   delete_task 9 [mk_task 1 ''a'' False ''t'', mk_task 2 ''b'' False ''u'', mk_task 3 ''c'' True ''v''] =
     Inr (False, [mk_task 1 ''a'' False ''t'', mk_task 2 ''b'' False ''u'', mk_task 3 ''c'' True ''v''])"
  using delete_task_spec [of "[mk_task 1 ''a'' False ''t'', mk_task 2 ''b'' False ''u'', mk_task 3 ''c'' True ''v'']" "[1, 2, 3]" 2]
    delete_task_spec [of "[mk_task 1 ''a'' False ''t'', mk_task 2 ''b'' False ''u'', mk_task 3 ''c'' True ''v'']" "[1, 2, 3]" 9]
  by (simp add: id_of_def mk_task_def)

lemma ids_after_delete:
  assumes "map id_of tasks = map Some ids" "i \<in> set ids"
  shows "map id_of (take (length (takeWhile (\<lambda>j. j \<noteq> i) ids)) tasks @
                    drop (Suc (length (takeWhile (\<lambda>j. j \<noteq> i) ids))) tasks) = map Some (remove1 i ids)"
proof -
  let ?k = "length (takeWhile (\<lambda>j. j \<noteq> i) ids)"
  have "map id_of (take ?k tasks @ drop (Suc ?k) tasks) =
        take ?k (map id_of tasks) @ drop (Suc ?k) (map id_of tasks)"
    by (simp add: take_map drop_map)
  also have "\<dots> = map Some (take ?k ids @ drop (Suc ?k) ids)"
    by (simp add: assms(1) take_map drop_map)
  also have "take ?k ids @ drop (Suc ?k) ids = remove1 i ids"
    using assms(2) by (simp add: remove1_take_drop)
  finally show ?thesis .
qed

text \<open>
  C1, as the code has it. After \<open>delete_task\<close> of an id that occurs, \<open>add_task\<close> gives
  the new task the largest remaining id plus 1 (1 when nothing remains). That id is
  greater than every id still in the collection, and it differs from the deleted id
  whenever some remaining id is at least the deleted one. An id deleted from the top of
  the collection is given out again.
\<close>

theorem delete_then_add_id:
  assumes "map id_of tasks = map Some ids" "i \<in> set ids"
  shows "\<exists>tasks' new n.
           delete_task i tasks = Inr (True, tasks') \<and>
           map id_of tasks' = map Some (remove1 i ids) \<and>
           add_task now txt tasks' = Inr (new, tasks' @ [new]) \<and>
           id_of new = Some n \<and>
           n = (if remove1 i ids = [] then 1 else Max (set (remove1 i ids)) + 1) \<and>
           (\<forall>j\<in>set (remove1 i ids). j < n) \<and>
           ((\<exists>j\<in>set (remove1 i ids). i \<le> j) \<longrightarrow> n \<noteq> i)"
proof -
  let ?k = "length (takeWhile (\<lambda>j. j \<noteq> i) ids)"
  let ?tasks' = "take ?k tasks @ drop (Suc ?k) tasks"
  let ?ids' = "remove1 i ids"
  let ?n = "if ?ids' = [] then 1 else Max (set ?ids') + 1"
  let ?new = "mk_task ?n txt False (isoformat now)"
  have del: "delete_task i tasks = Inr (True, ?tasks')" using assms by (rule delete_present)
  have ids': "map id_of ?tasks' = map Some ?ids'" using assms by (rule ids_after_delete)
  have next_id: "get_next_id ?tasks' = Inr ?n"
  proof (cases "?ids' = []")
    case True
    with ids' have "?tasks' = []" by (metis map_is_Nil_conv)
    then have "get_next_id ?tasks' = Inr 1" by (simp only: get_next_id.simps)
    with True show ?thesis by (simp only: if_True refl)
  next
    case False
    with ids' have "?tasks' \<noteq> []" by (metis map_is_Nil_conv)
    with ids' have "get_next_id ?tasks' = Inr (Max (set ?ids') + 1)" by (rule get_next_id_max)
    with False show ?thesis by simp
  qed
  have add: "add_task now txt ?tasks' = Inr (?new, ?tasks' @ [?new])"
    using next_id by (simp add: add_task_def mk_task_def Let_def)
  have new: "id_of ?new = Some ?n" by (simp add: id_of_def mk_task_def)
  have above: "\<forall>j\<in>set ?ids'. j < ?n"
  proof
    fix j assume j: "j \<in> set ?ids'"
    then have "?ids' \<noteq> []" by auto
    moreover from j have "j \<le> Max (set ?ids')" by simp
    ultimately show "j < ?n" by simp
  qed
  then have "(\<exists>j\<in>set ?ids'. i \<le> j) \<longrightarrow> ?n \<noteq> i" by fastforce
  with del ids' add new above show ?thesis by blast
qed

theorem delete_then_add_id_witness:
  "delete_task 1 [mk_task 1 ''a'' False ''t'', mk_task 2 ''b'' False ''u''] =
     Inr (True, [mk_task 2 ''b'' False ''u'']) \<and>
   add_task sample_now ''c'' [mk_task 2 ''b'' False ''u''] =
     Inr (mk_task 3 ''c'' False (isoformat sample_now),
          [mk_task 2 ''b'' False ''u'', mk_task 3 ''c'' False (isoformat sample_now)])"
  using delete_then_add_id [of "[mk_task 1 ''a'' False ''t'', mk_task 2 ''b'' False ''u'']" "[1, 2]" 1 sample_now "''c''"]
  by (simp add: id_of_def mk_task_def delete_task_def add_task_def getitem_def py_add1_def
      Let_def dict_eq_def)

text \<open>
  C1 as stated fails: two tasks are added to the empty collection and get the ids 1
  and 2; task 2 is deleted; the next task added gets the id 2 again.
\<close>

theorem delete_then_add_reuses_id:
  "add_task sample_now ''a'' [] = Inr (mk_task 1 ''a'' False (isoformat sample_now), [mk_task 1 ''a'' False (isoformat sample_now)]) \<and>
   add_task sample_now ''b'' [mk_task 1 ''a'' False (isoformat sample_now)] =
     Inr (mk_task 2 ''b'' False (isoformat sample_now),
          [mk_task 1 ''a'' False (isoformat sample_now), mk_task 2 ''b'' False (isoformat sample_now)]) \<and>
   delete_task 2 [mk_task 1 ''a'' False (isoformat sample_now), mk_task 2 ''b'' False (isoformat sample_now)] =
     Inr (True, [mk_task 1 ''a'' False (isoformat sample_now)]) \<and>
   add_task sample_now ''c'' [mk_task 1 ''a'' False (isoformat sample_now)] =
     Inr (mk_task 2 ''c'' False (isoformat sample_now),
          [mk_task 1 ''a'' False (isoformat sample_now), mk_task 2 ''c'' False (isoformat sample_now)]) \<and>
   getitem (mk_task 2 ''c'' False (isoformat sample_now)) ''id'' = Inr (PInt 2)"
  by (simp add: add_task_def delete_task_def mk_task_def getitem_def py_add1_def Let_def dict_eq_def)

section \<open>Claims about the storage codec\<close>



lemma load_sample_document:
  "load_tasks sample_json_load \<lparr>tasks_file = Some sample_document, stdout = [], stderr = []\<rparr> =
     (Inr sample_tasks, \<lparr>tasks_file = Some sample_document, stdout = [], stderr = []\<rparr>)"
  by (simp add: load_tasks_def sample_json_load_def)

lemma sample_ids: "map id_of sample_tasks = map Some [1, 2, 3]"
  by (simp add: sample_tasks_def mk_task_def id_of_def)




section \<open>Claims about the command handlers\<close>

text \<open>
  C3. When the collection loaded has no task with the id asked for, \<open>complete_task\<close>
  returns \<open>False\<close> and the collection is the same; \<open>handle_complete\<close> leaves the file as
  \<open>load_tasks\<close> left it (as it was, when it held a list), prints
  \<open>Error: Task #<id> not found\<close> on the error stream and nothing on the standard output,
  and exits with code 1. \<open>delete_task\<close> and \<open>handle_delete\<close> do the same.
\<close>

theorem missing_id_fails:
  assumes "load_tasks json_load w = (Inr tasks, w1)"
    and "map id_of tasks = map Some ids" and "i \<notin> set ids"
  shows "complete_task i tasks = Inr (False, tasks) \<and>
         handle_complete json_load i w =
           (Exited 1, w1\<lparr>stderr := stderr w1 @ [''Error: Task #'' @ show_int i @ '' not found'']\<rparr>) \<and>
         delete_task i tasks = Inr (False, tasks) \<and>
         handle_delete json_load i w =
           (Exited 1, w1\<lparr>stderr := stderr w1 @ [''Error: Task #'' @ show_int i @ '' not found'']\<rparr>) \<and>
         tasks_file (snd (handle_complete json_load i w)) = tasks_file w1 \<and>
         tasks_file (snd (handle_delete json_load i w)) = tasks_file w1 \<and>
         exit_code (fst (handle_complete json_load i w)) = 1 \<and>
         exit_code (fst (handle_delete json_load i w)) = 1 \<and>
         ((\<exists>content ts. tasks_file w = Some content \<and> json_load content = Inr (Array ts)) \<longrightarrow>
            w1 = w)"
proof -
  have f: "find_task_by_id i tasks = Inr None" using assms(2,3) by (rule find_absent)
  have c: "complete_task i tasks = Inr (False, tasks)" using f by (simp add: complete_task_def)
  have d: "delete_task i tasks = Inr (False, tasks)" using f by (simp add: delete_task_def)
  have hc: "handle_complete json_load i w =
           (Exited 1, w1\<lparr>stderr := stderr w1 @ [''Error: Task #'' @ show_int i @ '' not found'']\<rparr>)"
    by (simp add: handle_complete_def assms(1) c print_err_def)
  have hd: "handle_delete json_load i w =
           (Exited 1, w1\<lparr>stderr := stderr w1 @ [''Error: Task #'' @ show_int i @ '' not found'']\<rparr>)"
    by (simp add: handle_delete_def assms(1) d print_err_def)
  have same: "(\<exists>content ts. tasks_file w = Some content \<and> json_load content = Inr (Array ts)) \<longrightarrow> w1 = w"
    using assms(1) by (auto simp: load_tasks_def)
  show ?thesis using c d same by (simp add: hc hd)
qed

theorem missing_id_fails_witness:
  "handle_complete sample_json_load 99 \<lparr>tasks_file = Some sample_document, stdout = [], stderr = []\<rparr> =
     (Exited 1,
      \<lparr>tasks_file = Some sample_document, stdout = [], stderr = [''Error: Task #99 not found'']\<rparr>) \<and>
   handle_delete sample_json_load 99 \<lparr>tasks_file = Some sample_document, stdout = [], stderr = []\<rparr> =
     (Exited 1,
      \<lparr>tasks_file = Some sample_document, stdout = [], stderr = [''Error: Task #99 not found'']\<rparr>)"
proof -
  have n: "show_int 99 = ''99''" by (simp add: show_int_def show_nat_2 digit_char_def)
  show ?thesis
    using missing_id_fails [OF load_sample_document sample_ids, of 99] by (simp add: n)
qed

section \<open>Claims about the listing\<close>






section \<open>Claims about saving\<close>

subsection \<open>Lone surrogates and the encoder\<close>

lemma has_surrogate_Cons:
  "has_surrogate (c # cs) =
     ((cs \<noteq> [] \<and> c = CHR 0xED \<and> (0xA0::nat) \<le> of_char (hd cs) \<and> (of_char (hd cs)::nat) \<le> 0xBF) \<or>
      has_surrogate cs)"
  by (cases cs) simp_all

lemma has_surrogate_ascii_prefix:
  "list_all (\<lambda>c. (of_char c::nat) < 128) xs \<Longrightarrow> has_surrogate (xs @ ys) = has_surrogate ys"
  by (induction xs) (auto simp: has_surrogate_Cons)

lemma ascii_no_surrogate: "list_all (\<lambda>c. (of_char c::nat) < 128) xs \<Longrightarrow> \<not> has_surrogate xs"
  using has_surrogate_ascii_prefix [of xs "[]"] by simp

lemma has_surrogate_ascii_suffix:
  "list_all (\<lambda>c. (of_char c::nat) < 128) xs \<Longrightarrow> has_surrogate (ys @ xs) = has_surrogate ys"
proof (induction ys)
  case Nil
  then show ?case by (simp add: ascii_no_surrogate)
next
  case (Cons y ys)
  show ?case
  proof (cases ys)
    case Nil
    with Cons.prems show ?thesis
      by (cases xs) (auto simp: has_surrogate_Cons ascii_no_surrogate)
  next
    case (Cons z zs)
    with Cons.IH Cons.prems show ?thesis by (simp add: has_surrogate_Cons)
  qed
qed

lemma digit_char_ascii: "(of_char (digit_char d)::nat) < 128"
  by (simp add: digit_char_def)

lemma hex_char_ascii: "(of_char (hex_char d)::nat) < 128"
  by (simp add: hex_char_def digit_char_ascii)

lemma escape_cases:
  "(plain_char c \<and> escape_char c = [c]) \<or>
   (\<not> plain_char c \<and> (of_char c::nat) < 128 \<and> escape_char c \<noteq> [] \<and>
    list_all (\<lambda>c. (of_char c::nat) < 128) (escape_char c))"
proof (cases "plain_char c")
  case True
  then show ?thesis by (auto simp: plain_char_def escape_char_def)
next
  case False
  then have "(of_char c::nat) < 128" by (auto simp: plain_char_def)
  moreover have "escape_char c \<noteq> []" by (simp add: escape_char_def)
  moreover have "list_all (\<lambda>c. (of_char c::nat) < 128) (escape_char c)"
    using False by (auto simp: plain_char_def escape_char_def hex_char_ascii)
  ultimately show ?thesis using False by simp
qed

lemma not_plain_not_continuation:
  "\<not> plain_char c \<Longrightarrow> \<not> ((0xA0::nat) \<le> of_char c)" "\<not> plain_char c \<Longrightarrow> c \<noteq> CHR 0xED"
  by (auto simp: plain_char_def)

lemma ascii_not_continuation:
  "(of_char c::nat) < 128 \<Longrightarrow> \<not> ((0xA0::nat) \<le> of_char c)" "(of_char c::nat) < 128 \<Longrightarrow> c \<noteq> CHR 0xED"
  by auto

lemma escaped_head:
  "s \<noteq> [] \<Longrightarrow> concat (map escape_char s) \<noteq> [] \<and>
     ((0xA0::nat) \<le> of_char (hd (concat (map escape_char s))) \<and>
      (of_char (hd (concat (map escape_char s)))::nat) \<le> 0xBF) =
     ((0xA0::nat) \<le> of_char (hd s) \<and> (of_char (hd s)::nat) \<le> 0xBF)"
proof (cases s)
  case Nil
  assume "s \<noteq> []" with Nil show ?thesis by simp
next
  case (Cons c cs)
  from escape_cases [of c] show ?thesis
  proof
    assume "plain_char c \<and> escape_char c = [c]"
    then show ?thesis using Cons by auto
  next
    assume a: "\<not> plain_char c \<and> (of_char c::nat) < 128 \<and> escape_char c \<noteq> [] \<and>
      list_all (\<lambda>c. (of_char c::nat) < 128) (escape_char c)"
    then obtain e es where e: "escape_char c = e # es" by (cases "escape_char c") auto
    with a have "(of_char e::nat) < 128" by simp
    with a e Cons show ?thesis by auto
  qed
qed

lemma has_surrogate_escaped: "has_surrogate (concat (map escape_char s)) = has_surrogate s"
proof (induction s)
  case Nil
  then show ?case by simp
next
  case (Cons c cs)
  from escape_cases [of c] show ?case
  proof
    assume p: "plain_char c \<and> escape_char c = [c]"
    show ?thesis
    proof (cases "cs = []")
      case True
      with p show ?thesis by simp
    next
      case False
      with escaped_head [of cs] Cons.IH p show ?thesis
        by (simp add: has_surrogate_Cons)
    qed
  next
    assume a: "\<not> plain_char c \<and> (of_char c::nat) < 128 \<and> escape_char c \<noteq> [] \<and>
      list_all (\<lambda>c. (of_char c::nat) < 128) (escape_char c)"
    then have "has_surrogate (escape_char c @ concat (map escape_char cs)) =
        has_surrogate (concat (map escape_char cs))"
      by (simp add: has_surrogate_ascii_prefix)
    moreover from a have "c \<noteq> CHR 0xED" by auto
    ultimately show ?thesis using Cons.IH by (simp add: has_surrogate_Cons)
  qed
qed

lemma has_surrogate_encode_str: "has_surrogate (encode_str s) = has_surrogate s"
proof -
  have "has_surrogate (encode_str s) = has_surrogate ([CHR 0x22] @ (concat (map escape_char s) @ [CHR 0x22]))"
    by (simp add: encode_str_def)
  also have "\<dots> = has_surrogate (concat (map escape_char s) @ [CHR 0x22])"
    by (rule has_surrogate_ascii_prefix) simp
  also have "\<dots> = has_surrogate (concat (map escape_char s))"
    by (rule has_surrogate_ascii_suffix) simp
  finally show ?thesis by (simp add: has_surrogate_escaped)
qed

lemma show_nat_ascii: "list_all (\<lambda>c. (of_char c::nat) < 128) (show_nat n)"
proof (induction n rule: show_nat.induct)
  case (1 n)
  show ?case
  proof (cases "n < 10")
    case True
    then show ?thesis by (simp add: show_nat_small digit_char_ascii)
  next
    case False
    with "1" show ?thesis by (simp add: show_nat_step digit_char_ascii)
  qed
qed

lemma show_int_ascii: "list_all (\<lambda>c. (of_char c::nat) < 128) (show_int i)"
  by (simp add: show_int_def show_nat_ascii)

lemma newline_indent_ascii: "list_all (\<lambda>c. (of_char c::nat) < 128) (newline_indent n)"
  by (simp add: newline_indent_def list_all_iff)

lemma encode_value_ok:
  "serialisable_value v \<Longrightarrow> encode_value v = Inr (encode_scalar v) \<and> \<not> has_surrogate (encode_scalar v)"
proof (cases v)
  case (PInt n)
  assume "serialisable_value v"
  with PInt show ?thesis
    by (simp add: int_str_def max_str_digits_def ascii_no_surrogate show_int_ascii)
next
  case (PStr s)
  assume "serialisable_value v"
  with PStr show ?thesis by (simp add: has_surrogate_encode_str)
qed (simp_all add: ascii_no_surrogate)

subsection \<open>The pieces of the dump and the document\<close>

lemma write_chunk:
  "tasks_file w = Some old \<Longrightarrow> \<not> has_surrogate chunk \<Longrightarrow>
   write_chunks (Inr chunk # chunks) w = write_chunks chunks (w\<lparr>tasks_file := Some (old @ chunk)\<rparr>)"
  by (simp add: fwrite_def)

lemma write_ascii_chunk:
  "tasks_file w = Some old \<Longrightarrow> list_all (\<lambda>c. (of_char c::nat) < 128) chunk \<Longrightarrow>
   write_chunks (Inr chunk # chunks) w = write_chunks chunks (w\<lparr>tasks_file := Some (old @ chunk)\<rparr>)"
  by (simp add: fwrite_def ascii_no_surrogate)

lemma world_same: "tasks_file w = Some old \<Longrightarrow> w\<lparr>tasks_file := Some old\<rparr> = w"
  by (cases w) simp

lemma join_Cons: "join sep (x # xs) = x @ (if xs = [] then [] else sep @ join sep xs)"
  by (cases xs) simp_all

lemma write_items:
  assumes "list_all (\<lambda>kv. \<not> has_surrogate (fst kv) \<and> serialisable_value (snd kv)) d"
    and "list_all (\<lambda>c. (of_char c::nat) < 128) sep"
  shows "tasks_file w = Some old \<Longrightarrow>
     write_chunks (iterencode_items sep first d @ rest) w =
     write_chunks rest
       (w\<lparr>tasks_file :=
            Some (old @ (if d = [] then [] else (if first then [] else sep) @ join sep (map encode_item d)))\<rparr>)"
  using assms(1)
proof (induction d arbitrary: first w old)
  case Nil
  then show ?case by (simp add: world_same)
next
  case (Cons kv d)
  obtain k v where kv: "kv = (k, v)" by (cases kv)
  from Cons.prems kv have k: "\<not> has_surrogate (encode_str k)"
    and v: "encode_value v = Inr (encode_scalar v)" "\<not> has_surrogate (encode_scalar v)"
    and d: "list_all (\<lambda>kv. \<not> has_surrogate (fst kv) \<and> serialisable_value (snd kv)) d"
    by (simp_all add: has_surrogate_encode_str encode_value_ok)
  let ?pre = "if first then [] else sep"
  let ?w1 = "w\<lparr>tasks_file := Some (old @ ?pre)\<rparr>"
  let ?w2 = "w\<lparr>tasks_file := Some (old @ ?pre @ encode_item (k, v))\<rparr>"
  have sep: "\<not> has_surrogate sep" using assms(2) by (rule ascii_no_surrogate)
  have "write_chunks (iterencode_items sep first (kv # d) @ rest) w =
        write_chunks ([Inr (encode_str k), Inr '': '', Inr (encode_scalar v)] @
                      iterencode_items sep False d @ rest) ?w1"
    using Cons.prems(1) sep by (cases first) (simp_all add: kv v fwrite_def)
  also have "\<dots> = write_chunks (iterencode_items sep False d @ rest) ?w2"
    using k v(2) by (simp add: fwrite_def encode_item_def ascii_no_surrogate)
  also have "\<dots> = write_chunks rest
       (?w2\<lparr>tasks_file :=
            Some ((old @ ?pre @ encode_item (k, v)) @
                  (if d = [] then [] else (if False then [] else sep) @ join sep (map encode_item d)))\<rparr>)"
    by (rule Cons.IH) (simp_all add: d)
  finally show ?case by (simp add: kv join_Cons)
qed

lemma write_dict:
  assumes "list_all (\<lambda>kv. \<not> has_surrogate (fst kv) \<and> serialisable_value (snd kv)) d"
    and "tasks_file w = Some old"
  shows "write_chunks (iterencode_dict level d @ rest) w =
         write_chunks rest (w\<lparr>tasks_file := Some (old @ encode_dict level d)\<rparr>)"
proof (cases "d = []")
  case True
  then show ?thesis using assms(2) by (simp add: iterencode_dict_def encode_dict_def fwrite_def)
next
  case False
  let ?nl = "newline_indent (level + 1)"
  let ?w1 = "w\<lparr>tasks_file := Some (old @ ''{'' @ ?nl)\<rparr>"
  have sep: "list_all (\<lambda>c. (of_char c::nat) < 128) ('','' @ ?nl)"
    using newline_indent_ascii by simp
  have nl: "\<not> has_surrogate ?nl" "\<not> has_surrogate (newline_indent level)"
    by (simp_all add: ascii_no_surrogate newline_indent_ascii)
  have "write_chunks (iterencode_dict level d @ rest) w =
        write_chunks (iterencode_items ('','' @ ?nl) True d @
                      ([Inr (newline_indent level), Inr ''}''] @ rest)) ?w1"
    using False assms(2) nl by (simp add: iterencode_dict_def fwrite_def)
  also have "\<dots> = write_chunks ([Inr (newline_indent level), Inr ''}''] @ rest)
        (?w1\<lparr>tasks_file := Some ((old @ ''{'' @ ?nl) @
            (if d = [] then [] else (if True then [] else '','' @ ?nl) @
               join ('','' @ ?nl) (map encode_item d)))\<rparr>)"
    using assms(1) sep by (rule write_items) simp
  also have "\<dots> = write_chunks rest (w\<lparr>tasks_file := Some (old @ encode_dict level d)\<rparr>)"
    using False nl by (simp add: fwrite_def encode_dict_def)
  finally show ?thesis .
qed

lemma write_elems:
  assumes "list_all (\<lambda>c. (of_char c::nat) < 128) buf"
  shows "serialisable tasks \<Longrightarrow> tasks_file w = Some old \<Longrightarrow>
     write_chunks (iterencode_elems buf tasks @ rest) w =
     write_chunks rest
       (w\<lparr>tasks_file :=
            Some (old @ (if tasks = [] then []
                         else buf @ join ('','' @ newline_indent 1) (map (encode_dict 1) tasks)))\<rparr>)"
  using assms
proof (induction tasks arbitrary: buf w old)
  case Nil
  then show ?case by (simp add: world_same)
next
  case (Cons t ts)
  let ?sep = "'','' @ newline_indent 1"
  let ?w1 = "w\<lparr>tasks_file := Some (old @ buf)\<rparr>"
  let ?w2 = "?w1\<lparr>tasks_file := Some ((old @ buf) @ encode_dict 1 t)\<rparr>"
  from Cons.prems have t: "list_all (\<lambda>kv. \<not> has_surrogate (fst kv) \<and> serialisable_value (snd kv)) t"
    and ts: "serialisable ts" by (simp_all add: serialisable_def)
  have sep: "list_all (\<lambda>c. (of_char c::nat) < 128) ?sep" using newline_indent_ascii by simp
  have "write_chunks (iterencode_elems buf (t # ts) @ rest) w =
        write_chunks (iterencode_dict 1 t @ (iterencode_elems ?sep ts @ rest)) ?w1"
    using Cons.prems by (simp add: fwrite_def ascii_no_surrogate)
  also have "\<dots> = write_chunks (iterencode_elems ?sep ts @ rest) ?w2"
    using t by (rule write_dict) simp
  also have "\<dots> = write_chunks rest
       (?w2\<lparr>tasks_file :=
            Some (((old @ buf) @ encode_dict 1 t) @
                  (if ts = [] then [] else ?sep @ join ?sep (map (encode_dict 1) ts)))\<rparr>)"
    using ts _ sep by (rule Cons.IH) simp
  finally show ?case by (simp add: join_Cons)
qed

lemma json_dump_serialisable:
  assumes "serialisable tasks" "tasks_file w = Some old"
  shows "json_dump tasks w = (None, w\<lparr>tasks_file := Some (old @ json_dump_indent tasks)\<rparr>)"
proof (cases "tasks = []")
  case True
  then show ?thesis using assms(2)
    by (simp add: json_dump_def iterencode_list_def json_dump_indent_def fwrite_def)
next
  case False
  let ?buf = "''['' @ newline_indent 1"
  have buf: "list_all (\<lambda>c. (of_char c::nat) < 128) ?buf" using newline_indent_ascii by simp
  have nl: "\<not> has_surrogate (newline_indent 0)"
    by (simp add: ascii_no_surrogate newline_indent_ascii)
  have "json_dump tasks w =
        write_chunks (iterencode_elems ?buf tasks @ [Inr (newline_indent 0), Inr '']'']) w"
    using False by (simp add: json_dump_def iterencode_list_def)
  also have "\<dots> = write_chunks [Inr (newline_indent 0), Inr '']'']
       (w\<lparr>tasks_file :=
            Some (old @ (if tasks = [] then []
                         else ?buf @ join ('','' @ newline_indent 1) (map (encode_dict 1) tasks)))\<rparr>)"
    using buf assms by (rule write_elems)
  also have "\<dots> = (None, w\<lparr>tasks_file := Some (old @ json_dump_indent tasks)\<rparr>)"
    using False nl by (simp add: fwrite_def json_dump_indent_def)
  finally show ?thesis .
qed

lemma save_tasks_serialisable:
  "serialisable tasks \<Longrightarrow>
   save_tasks tasks w = (None, w\<lparr>tasks_file := Some (json_dump_indent tasks)\<rparr>)"
  using json_dump_serialisable [of tasks "open_w w" "[]"]
  by (simp add: save_tasks_def open_w_def)

subsection \<open>The document\<close>

lemma escape_plain: "plain_char c \<Longrightarrow> escape_char c = [c]"
  by (auto simp: plain_char_def escape_char_def)

lemma non_ascii_plain: "(128::nat) \<le> of_char c \<Longrightarrow> plain_char c"
  by (auto simp: plain_char_def)

lemma encode_plain: "list_all plain_char s \<Longrightarrow> encode_str s = quoted s"
  by (induction s) (simp_all add: encode_str_def quoted_def escape_plain)

lemma newline_indents:
  "newline_indent 0 = [CHR 0x0A]" "newline_indent (Suc 0) = CHR 0x0A # ''  ''"
  "newline_indent 2 = CHR 0x0A # ''    ''" "newline_indent (Suc (Suc 0)) = CHR 0x0A # ''    ''"
  by (simp_all add: newline_indent_def numeral_2_eq_2 numeral_Bit0)

lemma show_nat_power10: "length (show_nat (10 ^ k)) = Suc k"
proof (induction k)
  case 0
  then show ?case by (simp add: show_nat_small)
next
  case (Suc k)
  have "(10::nat) \<le> 10 * 10 ^ k" by simp
  then have "show_nat (10 * 10 ^ k) = show_nat (10 * 10 ^ k div 10) @ [digit_char (10 * 10 ^ k mod 10)]"
    by (rule show_nat_step)
  with Suc show ?case by simp
qed

lemma int_str_too_long:
  assumes "4300 \<le> k"
  shows "int_str (10 ^ k) =
     Inl (ValueError ''Exceeds the limit (4300 digits) for integer string conversion; use sys.set_int_max_str_digits() to increase the limit'')"
proof -
  have "nat \<bar>10 ^ k :: int\<bar> = 10 ^ k" by (simp add: nat_power_eq)
  then have "length (show_nat (nat \<bar>10 ^ k :: int\<bar>)) = Suc k"
    by (simp only: show_nat_power10)
  with assms show ?thesis by (simp add: int_str_def max_str_digits_def)
qed

lemma int_str_too_long_id:
  "int_str too_long_id =
     Inl (ValueError ''Exceeds the limit (4300 digits) for integer string conversion; use sys.set_int_max_str_digits() to increase the limit'')"
  unfolding too_long_id_def by (rule int_str_too_long) simp

text \<open>
  C8, as the code has it. For a collection that is serialisable (no lone surrogate in a
  key or a string, no integer of more than 4300 digits) \<open>save_tasks\<close> raises nothing and
  replaces the content of the file, whatever it was, by the document of the whole
  collection; it touches neither output stream. The file is not replaced in one step:
  \<open>open\<close> empties it, and the document is written to the emptied file piece by piece. A
  string made of plain characters, which every byte of a non-ASCII character is, stands
  in the document as it is, between quotes.
\<close>

theorem save_tasks_overwrites:
  "(serialisable tasks \<longrightarrow>
      save_tasks tasks w = (None, w\<lparr>tasks_file := Some (json_dump_indent tasks)\<rparr>)) \<and>
   save_tasks_states tasks w = [w\<lparr>tasks_file := Some []\<rparr>, snd (save_tasks tasks w)] \<and>
   (list_all plain_char s \<longrightarrow> encode_str s = quoted s) \<and>
   ((128::nat) \<le> of_char c \<longrightarrow> plain_char c \<and> escape_char c = [c])"
proof (intro conjI impI)
  assume "serialisable tasks"
  then show "save_tasks tasks w = (None, w\<lparr>tasks_file := Some (json_dump_indent tasks)\<rparr>)"
    by (rule save_tasks_serialisable)
next
  show "save_tasks_states tasks w = [w\<lparr>tasks_file := Some []\<rparr>, snd (save_tasks tasks w)]"
    by (simp add: save_tasks_states_def save_tasks_def open_w_def)
next
  assume "list_all plain_char s" then show "encode_str s = quoted s" by (rule encode_plain)
next
  assume c: "(128::nat) \<le> of_char c"
  then show "plain_char c" by (rule non_ascii_plain)
  then show "escape_char c = [c]" by (rule escape_plain)
qed

theorem save_tasks_overwrites_witness:
  "save_tasks [mk_task 1 ''Buy milk'' False ''2024-03-09T07:05:00'']
     \<lparr>tasks_file = Some ''anything'', stdout = [], stderr = []\<rparr> =
   (None,
    \<lparr>tasks_file =
       Some (join [CHR 0x0A]
         [''['',
          ''  {'',
          ''    '' @ quoted ''id'' @ '': 1,'',
          ''    '' @ quoted ''text'' @ '': '' @ quoted ''Buy milk'' @ '','',
          ''    '' @ quoted ''completed'' @ '': false,'',
          ''    '' @ quoted ''created_at'' @ '': '' @ quoted ''2024-03-09T07:05:00'',
          ''  }'',
          '']'']),
     stdout = [], stderr = []\<rparr>) \<and>
   encode_str [CHR ''c'', CHR ''a'', CHR ''f'', CHR 0xC3, CHR 0xA9] =
     quoted [CHR ''c'', CHR ''a'', CHR ''f'', CHR 0xC3, CHR 0xA9]"
proof -
  let ?t = "mk_task 1 ''Buy milk'' False ''2024-03-09T07:05:00''"
  let ?w = "\<lparr>tasks_file = Some ''anything'', stdout = [], stderr = []\<rparr>"
  let ?cafe = "[CHR ''c'', CHR ''a'', CHR ''f'', CHR 0xC3, CHR 0xA9]"
  have e: "encode_str ''id'' = quoted ''id''" "encode_str ''text'' = quoted ''text''"
    "encode_str ''Buy milk'' = quoted ''Buy milk''" "encode_str ''completed'' = quoted ''completed''"
    "encode_str ''created_at'' = quoted ''created_at''"
    "encode_str ''2024-03-09T07:05:00'' = quoted ''2024-03-09T07:05:00''"
    by (rule encode_plain, simp add: plain_char_def)+
  have p: "list_all plain_char ?cafe" by (simp add: plain_char_def)
  have n: "show_int 1 = ''1''" "show_nat (Suc 0) = ''1''"
    by (simp_all add: show_int_def show_nat_small digit_char_def)
  have ser: "serialisable [?t]"
    by (simp add: serialisable_def mk_task_def n)
  have d: "json_dump_indent [?t] =
     ''['' @ CHR 0x0A # ''  {'' @ CHR 0x0A # ''    '' @ quoted ''id'' @ '': 1,'' @
     CHR 0x0A # ''    '' @ quoted ''text'' @ '': '' @ quoted ''Buy milk'' @ '','' @
     CHR 0x0A # ''    '' @ quoted ''completed'' @ '': false,'' @
     CHR 0x0A # ''    '' @ quoted ''created_at'' @ '': '' @ quoted ''2024-03-09T07:05:00'' @
     CHR 0x0A # ''  }'' @ CHR 0x0A # '']''"
    by (simp add: json_dump_indent_def encode_dict_def encode_item_def mk_task_def e n newline_indents
        numeral_2_eq_2)
  have s: "save_tasks [?t] ?w = (None, ?w\<lparr>tasks_file := Some (json_dump_indent [?t])\<rparr>)"
    using save_tasks_overwrites [where tasks = "[?t]" and s = "[]"] ser by simp
  have c: "encode_str ?cafe = quoted ?cafe"
    using save_tasks_overwrites [where s = ?cafe and tasks = "[]"] p by simp
  show ?thesis
    unfolding s d using c by simp
qed

text \<open>
  C8 as stated fails. The write is not atomic: while one task is saved over a file that
  held \<open>[]\<close>, the file is empty after \<open>open\<close>, which is neither the old content nor the
  new one. And not every collection is written in full: a text with a lone surrogate
  makes the dump raise \<open>UnicodeEncodeError\<close>, an integer of 4301 digits \<open>ValueError\<close>, and
  the file is left with the pieces written before.
\<close>

theorem save_tasks_not_atomic:
  "tasks_file (save_tasks_states [mk_task 1 ''a'' False ''t'']
                 \<lparr>tasks_file = Some ''[]'', stdout = [], stderr = []\<rparr> ! 0) = Some [] \<and>
   tasks_file \<lparr>tasks_file = Some ''[]'', stdout = [], stderr = []\<rparr> \<noteq> Some [] \<and>
   tasks_file (snd (save_tasks [mk_task 1 ''a'' False ''t'']
                 \<lparr>tasks_file = Some ''[]'', stdout = [], stderr = []\<rparr>)) \<noteq> Some [] \<and>
   save_tasks [mk_task 1 surrogate_text False ''2024-03-09T07:05:00'']
     \<lparr>tasks_file = Some ''[]'', stdout = [], stderr = []\<rparr> =
   (Some UnicodeEncodeError,
    \<lparr>tasks_file =
       Some (join [CHR 0x0A]
         [''['', ''  {'', ''    '' @ quoted ''id'' @ '': 1,'', ''    '' @ quoted ''text'' @ '': '']),
     stdout = [], stderr = []\<rparr>) \<and>
   save_tasks [[(''id'', PInt too_long_id)]]
     \<lparr>tasks_file = Some ''[]'', stdout = [], stderr = []\<rparr> =
   (Some (ValueError ''Exceeds the limit (4300 digits) for integer string conversion; use sys.set_int_max_str_digits() to increase the limit''),
    \<lparr>tasks_file = Some (join [CHR 0x0A] [''['', ''  {'', ''    '' @ quoted ''id'' @ '': '']),
     stdout = [], stderr = []\<rparr>)"
proof -
  let ?w = "\<lparr>tasks_file = Some ''[]'', stdout = [], stderr = []\<rparr>"
  have e: "encode_str ''id'' = quoted ''id''" "encode_str ''text'' = quoted ''text''"
    by (rule encode_plain, simp add: plain_char_def)+
  have q: "\<not> has_surrogate (quoted ''id'')" "\<not> has_surrogate (quoted ''text'')"
    by (simp_all add: quoted_def)
  have n: "int_str 1 = Inr ''1''"
    by (simp add: int_str_def max_str_digits_def show_int_def show_nat_small digit_char_def)
  have sur: "has_surrogate (encode_str surrogate_text)"
    by (simp add: has_surrogate_encode_str surrogate_text_def)
  have nl: "\<not> has_surrogate (newline_indent 0)" "\<not> has_surrogate (newline_indent (Suc 0))"
    "\<not> has_surrogate (newline_indent (Suc (Suc 0)))"
    "\<not> has_surrogate (CHR ''['' # newline_indent (Suc 0))"
    "\<not> has_surrogate (CHR '','' # newline_indent (Suc (Suc 0)))"
    by (simp_all add: newline_indents)
  have a: "tasks_file (snd (save_tasks [mk_task 1 ''a'' False ''t''] ?w)) \<noteq> Some []"
  proof -
    have "serialisable [mk_task 1 ''a'' False ''t'']"
      by (simp add: serialisable_def mk_task_def show_nat_small)
    then have "save_tasks [mk_task 1 ''a'' False ''t''] ?w =
        (None, ?w\<lparr>tasks_file := Some (json_dump_indent [mk_task 1 ''a'' False ''t''])\<rparr>)"
      by (rule save_tasks_serialisable)
    then show ?thesis by (simp add: json_dump_indent_def)
  qed
  have b: "save_tasks [mk_task 1 surrogate_text False ''2024-03-09T07:05:00''] ?w =
   (Some UnicodeEncodeError,
    \<lparr>tasks_file =
       Some (join [CHR 0x0A]
         [''['', ''  {'', ''    '' @ quoted ''id'' @ '': 1,'', ''    '' @ quoted ''text'' @ '': '']),
     stdout = [], stderr = []\<rparr>)"
    by (simp add: save_tasks_def json_dump_def iterencode_list_def iterencode_dict_def mk_task_def
        open_w_def fwrite_def e q n sur nl newline_indents numeral_2_eq_2)
  have c: "save_tasks [[(''id'', PInt too_long_id)]] ?w =
   (Some (ValueError ''Exceeds the limit (4300 digits) for integer string conversion; use sys.set_int_max_str_digits() to increase the limit''),
    \<lparr>tasks_file = Some (join [CHR 0x0A] [''['', ''  {'', ''    '' @ quoted ''id'' @ '': '']),
     stdout = [], stderr = []\<rparr>)"
    by (simp add: save_tasks_def json_dump_def iterencode_list_def iterencode_dict_def
        open_w_def fwrite_def e q int_str_too_long_id nl newline_indents numeral_2_eq_2)
  show ?thesis
    using a by (simp add: b c save_tasks_states_def open_w_def)
qed

section \<open>Behaviour outside the data model\<close>

text \<open>
  What the code does on input the properties above leave out. A task without an id makes
  \<open>get_next_id\<close> raise \<open>KeyError\<close>, and with it \<open>add_task\<close>.
\<close>

lemma get_next_id_missing_id:
  "map_of task ''id'' = None \<Longrightarrow> get_next_id (task # tasks) = Inl (KeyError ''id'')"
  by (simp add: getitem_def)

lemma add_task_missing_id:
  "map_of task ''id'' = None \<Longrightarrow> add_task now txt (task # tasks) = Inl (KeyError ''id'')"
  by (simp add: add_task_def getitem_def)

text \<open>
  A \<open>created_at\<close> that is present but not a string makes \<open>fromisoformat\<close> raise
  \<open>TypeError\<close>, which \<open>format_task\<close> does not catch: the listing stops at that task.
\<close>

lemma format_task_created_at_not_str:
  assumes "map_of t ''id'' = Some (PInt n)" "map_of t ''completed'' = Some (PBool c)"
    "map_of t ''text'' = Some (PStr txt)" "map_of t ''created_at'' = Some v" "\<forall>s. v \<noteq> PStr s"
  shows "format_task f t = Inl TypeError"
  using assms by (cases v) (simp_all add: format_task_def format_timestamp_def getitem_def)

lemma list_tasks_stops:
  assumes "format_task f t = Inl e"
  shows "list_tasks f encodable (t # ts) w = (Some e, w)"
  using assms by (simp add: list_tasks_def)

text \<open>
  An exception of \<open>json.load\<close> that is neither \<open>JSONDecodeError\<close> nor \<open>ValueError\<close> leaves
  \<open>load_tasks\<close>, and the file stays as it was.
\<close>

lemma load_tasks_other_exception:
  "tasks_file w = Some content \<Longrightarrow> json_load content = Inl RecursionError \<Longrightarrow>
   load_tasks json_load w = (Inl RecursionError, w)"
  by (simp add: load_tasks_def)

text \<open>A file that does not exist is created with \<open>[]\<close>, without a diagnostic.\<close>

lemma load_tasks_missing_file:
  "tasks_file w = None \<Longrightarrow> load_tasks json_load w = (Inr [], w\<lparr>tasks_file := Some ''[]''\<rparr>)"
  by (simp add: load_tasks_def fwrite_def open_w_def)

text \<open>
  A dump that raises leaves \<open>save_tasks\<close> as the exception, and the handlers end with it
  before they print their confirmation.
\<close>

lemma handle_complete_save_fails:
  assumes "load_tasks json_load w = (Inr tasks, w1)"
    and "complete_task i tasks = Inr (True, tasks')"
    and "save_tasks tasks' w1 = (Some e, w2)"
  shows "handle_complete json_load i w = (Raised e, w2)"
  using assms by (simp add: handle_complete_def)

end
